theory Spec2Isabelle
  imports Main
begin

section \<open>JavaScript values, outcomes and the shared state\<close>

text \<open>
  The file \<^verbatim>\<open>packages/app/src/app/overmind/factories.ts\<close> holds three action factories:
  \<^verbatim>\<open>withLoadApp\<close>, \<^verbatim>\<open>withOwnedSandbox\<close> and \<^verbatim>\<open>createModals\<close>. An action receives a
  context (state, effects, actions) and a payload and returns a promise.

  Values that travel through payloads, modal state and storage are JavaScript values.
  Numbers are restricted to integers (no \<^verbatim>\<open>NaN\<close>). The closure \<^verbatim>\<open>isCurrent\<close> that
  \<^verbatim>\<open>createModal\<close> stores in a modal's state object is a value too; it is represented by
  the name it captured.
\<close>

datatype jsval =
    JUndefined
  | JNull
  | JBool bool
  | JNum int
  | JStr string
  | JObj "(string \<times> jsval) list"
  | JIsCurrent string

type_synonym obj = "(string \<times> jsval) list"

text \<open>The conversion \<^verbatim>\<open>ToBoolean\<close>, as used by \<^verbatim>\<open>if (x)\<close> and \<^verbatim>\<open>x || y\<close>.\<close>

fun truthy :: "jsval \<Rightarrow> bool" where
  "truthy JUndefined = False"
| "truthy JNull = False"
| "truthy (JBool b) = b"
| "truthy (JNum n) = (n \<noteq> 0)"
| "truthy (JStr s) = (s \<noteq> [])"
| "truthy (JObj fs) = True"
| "truthy (JIsCurrent n) = True"

text \<open>\<^verbatim>\<open>a || b\<close>\<close>

definition js_or :: "jsval \<Rightarrow> jsval \<Rightarrow> jsval" where
  "js_or a b = (if truthy a then a else b)"

text \<open>\<^verbatim>\<open>target[k] = v\<close> on an object: an existing key keeps its place, a new key goes last.\<close>

fun set_prop :: "string \<Rightarrow> jsval \<Rightarrow> obj \<Rightarrow> obj" where
  "set_prop k v [] = [(k, v)]"
| "set_prop k v ((k', v') # ps) =
     (if k = k' then (k, v) # ps else (k', v') # set_prop k v ps)"

text \<open>\<^verbatim>\<open>Object.assign(target, source)\<close>: a shallow merge, key by key in the source's order.\<close>

definition object_assign :: "obj \<Rightarrow> obj \<Rightarrow> obj" where
  "object_assign target source = fold (\<lambda>(k, v). set_prop k v) source target"

datatype exn = TypeError string | Thrown string

text \<open>
  How an awaited promise ends: it resolves with a value, it rejects (which \<^verbatim>\<open>await\<close>
  rethrows), or it never settles.
\<close>

datatype 'a res = Done 'a | Fail exn | Pending

datatype promise = Unsettled | Resolved jsval

record user =
  user_id :: string
  email :: string

record sandbox =
  sb_id :: string
  owned :: bool
  authorization :: string
  isFrozen :: bool

text \<open>
  \<^verbatim>\<open>state.modals\<close> has the type \<^verbatim>\<open>{ current: keyof T | null } & { [K in keyof T]: ... }\<close>:
  the selector and one state object per modal. The model follows that type, so the key
  \<^verbatim>\<open>current\<close> is the selector's and modal names are the other keys.
\<close>

record modals_state =
  current :: "string option"
  perModal :: "string \<rightharpoonup> obj"

text \<open>
  Calls to the collaborators (effects, other actions, browser globals). The last three
  are the marks that the example actions of the scenarios leave.
\<close>

datatype call =
    Connection_addListener
  | Internal_setStoredSettings
  | CodesandboxApi_listen
  | Document_cookie_expire
  | NotificationState_addNotification string
  | Api_getCurrentUser
  | Internal_setPatronPrice
  | Analytics_identify string bool
  | Analytics_setUserId string string
  | Storage_get string
  | Internal_trackCurrentTeams
  | Internal_showUserSurveyIfNeeded
  | Live_getSocket
  | UserNotifications_initialize
  | Api_preloadTemplates
  | Internal_handleError string exn
  | Identify string bool
  | Analytics_setAnonymousId
  | Http_get string
  | Editor_forkSandbox string
  | Continue_action
  | Cancel_action

text \<open>
  The world an action runs in: the fields of the application state that the three
  factories read or write, \<^verbatim>\<open>localStorage.jwt\<close>, the closure variable \<^verbatim>\<open>resolver\<close> of each
  \<^verbatim>\<open>createModal\<close> call (one cell per modal name), the promises created by
  \<^verbatim>\<open>new Promise\<close> (a promise is its index), and the calls made so far, in program order.
\<close>

record world =
  hasLoadedApp :: bool
  isAuthenticating :: bool
  hasLogIn :: bool
  user :: "user option"
  activeTeam :: jsval
  contributors :: "string list"
  currentSandbox :: "sandbox option"
  isForkingSandbox :: bool
  sessionFrozen :: bool
  modals :: modals_state
  resolver :: "string \<rightharpoonup> nat"
  promises :: "promise list"
  jwt :: "string option"
  trace :: "call list"

type_synonym 'a action = "world \<Rightarrow> 'a res \<times> world"

text \<open>Sequencing of awaited steps: a rejection or a promise that never settles ends the rest.\<close>

definition step :: "'a action \<Rightarrow> ('a \<Rightarrow> 'b action) \<Rightarrow> 'b action" where
  "step m f w =
     (case m w of
        (Done a, w') \<Rightarrow> f a w'
      | (Fail e, w') \<Rightarrow> (Fail e, w')
      | (Pending, w') \<Rightarrow> (Pending, w'))"

text \<open>\<^verbatim>\<open>try { body } catch (e) { handler }\<close>: the state written before the throw stays.\<close>

definition try_catch :: "'a action \<Rightarrow> (exn \<Rightarrow> 'a action) \<Rightarrow> 'a action" where
  "try_catch body handler w =
     (case body w of
        (Fail e, w') \<Rightarrow> handler e w'
      | r \<Rightarrow> r)"

text \<open>A block of statements, run in order until one throws or hangs.\<close>

fun block :: "unit action list \<Rightarrow> unit action" where
  "block [] w = (Done (), w)"
| "block (s # ss) w = step s (\<lambda>_. block ss) w"

section \<open>createModals\<close>

text \<open>A promise's \<^verbatim>\<open>resolve\<close> function: only the first call settles the promise.\<close>

definition resolve :: "nat \<Rightarrow> jsval \<Rightarrow> promise list \<Rightarrow> promise list" where
  "resolve p v ps =
     (if p < length ps \<and> ps ! p = Unsettled then ps[p := Resolved v] else ps)"

text \<open>One entry of the argument of \<^verbatim>\<open>createModals\<close>: \<^verbatim>\<open>{ state?: IState; result?: unknown }\<close>.
  An absent \<^verbatim>\<open>result\<close> reads as \<^verbatim>\<open>undefined\<close>.\<close>

record modal_def =
  md_state :: "obj option"
  md_result :: jsval

text \<open>
  \<^verbatim>\<open>open\<close> of \<^verbatim>\<open>createModal(name, modal)\<close>. The argument is \<^verbatim>\<open>None\<close> when the caller passes
  nothing, and the default \<^verbatim>\<open>{}\<close> applies. \<^verbatim>\<open>Object.assign\<close> throws a TypeError on an
  undefined target. The promise is returned unsettled, with \<^verbatim>\<open>resolver\<close> holding its
  resolve function: the result is the promise itself, or the rejection of the action.
\<close>

definition modal_open :: "string \<Rightarrow> obj option \<Rightarrow> world \<Rightarrow> nat res \<times> world" where
  "modal_open name arg w =
     (let newState = (case arg of None \<Rightarrow> [] | Some ns \<Rightarrow> ns);
          w1 = w\<lparr>modals := (modals w)\<lparr>current := Some name\<rparr>\<rparr>
      in case perModal (modals w1) name of
           None \<Rightarrow> (Fail (TypeError ''Cannot convert undefined or null to object''), w1)
         | Some target \<Rightarrow>
             (let w2 = w1\<lparr>modals := (modals w1)\<lparr>perModal :=
                          (perModal (modals w1))(name \<mapsto> object_assign target newState)\<rparr>\<rparr>;
                  p = length (promises w2)
              in (Done p, w2\<lparr>promises := promises w2 @ [Unsettled],
                            resolver := (resolver w2)(name \<mapsto> p)\<rparr>)))"

text \<open>
  \<^verbatim>\<open>close\<close> of \<^verbatim>\<open>createModal(name, modal)\<close>; an omitted payload is \<^verbatim>\<open>undefined\<close>. Calling the
  unassigned \<^verbatim>\<open>resolver\<close> throws a TypeError, after the selector has been written.
\<close>

definition modal_close :: "string \<Rightarrow> modal_def \<Rightarrow> jsval \<Rightarrow> world \<Rightarrow> unit res \<times> world" where
  "modal_close name modal payload w =
     (let w1 = w\<lparr>modals := (modals w)\<lparr>current := None\<rparr>\<rparr>
      in case resolver w1 name of
           None \<Rightarrow> (Fail (TypeError ''resolver is not a function''), w1)
         | Some p \<Rightarrow>
             (Done (), w1\<lparr>promises := resolve p (js_or payload (md_result modal)) (promises w1)\<rparr>))"

text \<open>The derived value \<^verbatim>\<open>isCurrent(_, root)\<close>: \<^verbatim>\<open>root.modals.current === name\<close>.\<close>

definition isCurrent :: "string \<Rightarrow> world \<Rightarrow> bool" where
  "isCurrent name root = (current (modals root) = Some name)"

record modal_actions =
  act_open :: "obj option \<Rightarrow> world \<Rightarrow> nat res \<times> world"
  act_close :: "jsval \<Rightarrow> world \<Rightarrow> unit res \<times> world"

record created_modal =
  cm_state :: obj
  cm_actions :: modal_actions

definition createModal :: "string \<Rightarrow> modal_def \<Rightarrow> created_modal" where
  "createModal name modal =
     \<lparr>cm_state = set_prop ''isCurrent'' (JIsCurrent name)
                   (object_assign [] (case md_state modal of None \<Rightarrow> [] | Some s \<Rightarrow> s)),
      cm_actions = \<lparr>act_open = modal_open name, act_close = modal_close name modal\<rparr>\<rparr>"

record created_modals =
  out_state :: modals_state
  out_actions :: "string \<rightharpoonup> modal_actions"

text \<open>
  The argument object is an association list; \<^verbatim>\<open>Object.keys\<close> lists each key once and
  \<^verbatim>\<open>modals[name]\<close> is the lookup.
\<close>

definition object_keys :: "(string \<times> 'a) list \<Rightarrow> string list" where
  "object_keys ob = remdups (map fst ob)"

definition createModals :: "(string \<times> modal_def) list \<Rightarrow> created_modals" where
  "createModals ms =
     fold (\<lambda>name aggr.
             case map_of ms name of
               None \<Rightarrow> aggr
             | Some md \<Rightarrow>
                 (let modal = createModal name md
                  in aggr\<lparr>out_state := (out_state aggr)\<lparr>perModal :=
                              (perModal (out_state aggr))(name \<mapsto> cm_state modal)\<rparr>,
                          out_actions := (out_actions aggr)(name \<mapsto> cm_actions modal)\<rparr>))
          (object_keys ms)
          \<lparr>out_state = \<lparr>current = None, perModal = Map.empty\<rparr>, out_actions = Map.empty\<rparr>"

section \<open>withLoadApp\<close>

text \<open>
  The collaborators are opaque: their code is elsewhere. The source gives a failure path
  to the calls it makes inside a \<^verbatim>\<open>try\<close> block and to what it awaits; \<open>throws\<close> says which of
  those calls throw (an awaited one: reject) and with what. A call made outside every
  \<^verbatim>\<open>try\<close> block and not awaited is fire-and-forget: the model records it. Awaited effects
  settle. What the collaborators write lies in parts of the state that this file does not
  read.
  \<open>currentUser\<close> is what \<^verbatim>\<open>getCurrentUser\<close> resolves with (\<open>None\<close>: no user object),
  \<open>storage\<close> what \<^verbatim>\<open>effects.browser.storage.get\<close> returns, and \<open>contributorsFile\<close> the logins
  of \<^verbatim>\<open>response.data.contributors\<close> (\<open>None\<close>: the response has another shape).
\<close>

record env =
  throws :: "call \<Rightarrow> exn option"
  currentUser :: "user option"
  storage :: "string \<Rightarrow> jsval"
  contributorsFile :: "string list option"

definition TEAM_ID_LOCAL_STORAGE :: string where
  "TEAM_ID_LOCAL_STORAGE = ''codesandbox-selected-team-id''"

definition CONTRIBUTORS_URL :: string where
  "CONTRIBUTORS_URL = ''https://raw.githubusercontent.com/codesandbox/codesandbox-client/master/.all-contributorsrc''"

definition called :: "call \<Rightarrow> world \<Rightarrow> world" where
  "called c w = w\<lparr>trace := trace w @ [c]\<rparr>"

definition plain :: "call \<Rightarrow> unit action" where
  "plain c w = (Done (), called c w)"

definition guarded :: "env \<Rightarrow> call \<Rightarrow> unit action" where
  "guarded env c w =
     (case throws env c of
        None \<Rightarrow> (Done (), called c w)
      | Some e \<Rightarrow> (Fail e, called c w))"

definition assign :: "(world \<Rightarrow> world) \<Rightarrow> unit action" where
  "assign f w = (Done (), f w)"

text \<open>Lines 34 to 59: the legacy token.\<close>

definition legacy_token :: "unit action" where
  "legacy_token w =
     (if truthy (case jwt w of None \<Rightarrow> JUndefined | Some t \<Rightarrow> JStr t)
      then block
             [plain Document_cookie_expire,
              assign (\<lambda>w. w\<lparr>hasLogIn := False\<rparr>),
              assign (\<lambda>w. w\<lparr>jwt := None\<rparr>),
              plain (NotificationState_addNotification ''Session Expired'')] w
      else (Done (), w))"

text \<open>Lines 63 to 82: the body of the outer \<^verbatim>\<open>try\<close>.\<close>

definition login_body :: "env \<Rightarrow> unit action" where
  "login_body env =
     block
       [guarded env Api_getCurrentUser,
        assign (\<lambda>w. w\<lparr>user := currentUser env\<rparr>),
        guarded env Internal_setPatronPrice,
        guarded env (Analytics_identify ''signed_in'' True),
        (\<lambda>w. case user w of
                None \<Rightarrow> (Fail (TypeError ''Cannot read properties of null''), w)
              | Some u \<Rightarrow> guarded env (Analytics_setUserId (user_id u) (email u)) w),
        guarded env (Storage_get TEAM_ID_LOCAL_STORAGE),
        assign (\<lambda>w. if truthy (storage env TEAM_ID_LOCAL_STORAGE)
                     then w\<lparr>activeTeam := storage env TEAM_ID_LOCAL_STORAGE\<rparr> else w),
        try_catch (guarded env Internal_trackCurrentTeams) (\<lambda>e. assign (\<lambda>w. w)),
        guarded env Internal_showUserSurveyIfNeeded,
        guarded env Live_getSocket,
        guarded env UserNotifications_initialize,
        guarded env Api_preloadTemplates,
        assign (\<lambda>w. w\<lparr>hasLogIn := True\<rparr>)]"

text \<open>Lines 61 to 92.\<close>

definition login_or_anonymous :: "env \<Rightarrow> unit action" where
  "login_or_anonymous env w =
     (if hasLogIn w
      then try_catch (login_body env)
             (\<lambda>error. plain (Internal_handleError ''We had trouble with signing you in'' error)) w
      else block [plain (Identify ''signed_in'' False), plain Analytics_setAnonymousId] w)"

text \<open>Lines 28 to 92: everything of a first invocation that precedes the continuation.\<close>

definition bootstrap :: "env \<Rightarrow> unit action" where
  "bootstrap env =
     block
       [assign (\<lambda>w. w\<lparr>isAuthenticating := True\<rparr>),
        plain Connection_addListener,
        plain Internal_setStoredSettings,
        plain CodesandboxApi_listen,
        legacy_token,
        login_or_anonymous env]"

text \<open>Lines 101 to 113.\<close>

definition fetch_contributors :: "env \<Rightarrow> unit action" where
  "fetch_contributors env =
     try_catch
       (step (guarded env (Http_get CONTRIBUTORS_URL))
          (\<lambda>_ w. case contributorsFile env of
                    None \<Rightarrow> (Fail (TypeError ''Cannot read properties of undefined''), w)
                  | Some logins \<Rightarrow> (Done (), w\<lparr>contributors := logins\<rparr>)))
       (\<lambda>error. assign (\<lambda>w. w))"

text \<open>
  The action returned by \<^verbatim>\<open>withLoadApp(continueAction)\<close>, applied to a payload. The
  continuation is awaited and its value dropped.
\<close>

definition withLoadApp :: "env \<Rightarrow> ('v \<Rightarrow> 'r action) option \<Rightarrow> 'v \<Rightarrow> unit action" where
  "withLoadApp env continueAction v w =
     (if hasLoadedApp w
      then (case continueAction of
              Some k \<Rightarrow> step (k v) (\<lambda>_. assign (\<lambda>w. w)) w
            | None \<Rightarrow> (Done (), w))
      else block
             [bootstrap env,
              (case continueAction of
                 Some k \<Rightarrow> step (k v) (\<lambda>_. assign (\<lambda>w. w))
               | None \<Rightarrow> assign (\<lambda>w. w)),
              assign (\<lambda>w. w\<lparr>hasLoadedApp := True\<rparr>),
              assign (\<lambda>w. w\<lparr>isAuthenticating := False\<rparr>),
              fetch_contributors env] w)"

section \<open>withOwnedSandbox\<close>

text \<open>
  What the wrapped action takes from its context: \<^verbatim>\<open>hasPermission\<close> (imported from the common
  library), \<^verbatim>\<open>actions.editor.internal.forkSandbox\<close> and
  \<^verbatim>\<open>actions.modals.forkFrozenModal.open\<close>, each awaited, so each is the world it leaves
  when its promise settles together with how the promise settled.
\<close>

record sandbox_context =
  hasPermission :: "string \<Rightarrow> string \<Rightarrow> bool"
  forkSandbox :: "string \<Rightarrow> unit action"
  forkFrozenModal_open :: "jsval action"

text \<open>The default \<^verbatim>\<open>cancelAction\<close>: \<^verbatim>\<open>() => Promise.resolve()\<close>.\<close>

definition default_cancel :: "'p \<Rightarrow> unit action" where
  "default_cancel payload w = (Done (), w)"

text \<open>\<^verbatim>\<open>try { await forkSandbox(...) } catch (e) { return cancelAction(...) }\<close>, then line 160.\<close>

definition fork_or_cancel ::
  "sandbox_context \<Rightarrow> ('p \<Rightarrow> unit action) \<Rightarrow> ('p \<Rightarrow> unit action) \<Rightarrow> sandbox \<Rightarrow> 'p \<Rightarrow> unit action" where
  "fork_or_cancel ctx continueAction cancel sb payload w =
     (case forkSandbox ctx (sb_id sb) w of
        (Fail e, w1) \<Rightarrow> cancel payload w1
      | (Pending, w1) \<Rightarrow> (Pending, w1)
      | (Done u, w1) \<Rightarrow> continueAction payload w1)"

definition withOwnedSandbox ::
  "sandbox_context \<Rightarrow> ('p \<Rightarrow> unit action) \<Rightarrow> ('p \<Rightarrow> unit action) option \<Rightarrow> string option
     \<Rightarrow> 'p \<Rightarrow> unit action" where
  "withOwnedSandbox ctx continueAction cancelAction requiredPermission payload w =
     (let cancel = (case cancelAction of None \<Rightarrow> default_cancel | Some c \<Rightarrow> c)
      in case currentSandbox w of
           None \<Rightarrow> continueAction payload w
         | Some sb \<Rightarrow>
             if (case requiredPermission of
                   None \<Rightarrow> \<not> owned sb
                 | Some perm \<Rightarrow> \<not> hasPermission ctx (authorization sb) perm)
             then (if isForkingSandbox w then cancel payload w
                   else fork_or_cancel ctx continueAction cancel sb payload w)
             else if isFrozen sb \<and> sessionFrozen w
             then (case forkFrozenModal_open ctx w of
                     (Fail e, w1) \<Rightarrow> (Fail e, w1)
                   | (Pending, w1) \<Rightarrow> (Pending, w1)
                   | (Done modalResponse, w1) \<Rightarrow>
                       if modalResponse = JStr ''fork''
                       then fork_or_cancel ctx continueAction cancel sb payload w1
                       else if modalResponse = JStr ''unfreeze''
                       then continueAction payload (w1\<lparr>sessionFrozen := False\<rparr>)
                       else if modalResponse = JStr ''cancel''
                       then cancel payload w1
                       else continueAction payload w1)
             else continueAction payload w)"

section \<open>Scenarios\<close>

text \<open>
  The dispatches of modal actions that a user interface makes over time: each one runs
  the action of that name, if \<^verbatim>\<open>createModals\<close> produced one, and leaves its world
  behind, whether the action's promise resolved or rejected.
\<close>

datatype modal_op = Open string "obj option" | Close string jsval

fun op_name :: "modal_op \<Rightarrow> string" where
  "op_name (Open n a) = n"
| "op_name (Close n v) = n"

fun is_close_of :: "string \<Rightarrow> modal_op \<Rightarrow> bool" where
  "is_close_of a (Close n v) = (n = a)"
| "is_close_of a (Open n x) = False"

fun is_open_of :: "string \<Rightarrow> modal_op \<Rightarrow> bool" where
  "is_open_of a (Open n x) = (n = a)"
| "is_open_of a (Close n v) = False"

fun dispatch :: "(string \<rightharpoonup> modal_actions) \<Rightarrow> modal_op \<Rightarrow> world \<Rightarrow> world" where
  "dispatch acts (Open n a) w =
     (case acts n of None \<Rightarrow> w | Some m \<Rightarrow> snd (act_open m a w))"
| "dispatch acts (Close n v) w =
     (case acts n of None \<Rightarrow> w | Some m \<Rightarrow> snd (act_close m v w))"

definition run :: "(string \<rightharpoonup> modal_actions) \<Rightarrow> modal_op list \<Rightarrow> world \<Rightarrow> world" where
  "run acts ops w = fold (dispatch acts) ops w"

text \<open>Every resolve function held in a \<^verbatim>\<open>resolver\<close> variable belongs to a promise that exists.\<close>

definition resolvers_allocated :: "world \<Rightarrow> bool" where
  "resolvers_allocated w = (\<forall>n q. resolver w n = Some q \<longrightarrow> q < length (promises w))"

text \<open>
  The caller of \<^verbatim>\<open>open\<close> awaits the promise; the user answers by a \<^verbatim>\<open>close\<close> with a payload.
\<close>

definition prompt_answered :: "string \<Rightarrow> modal_def \<Rightarrow> jsval \<Rightarrow> jsval action" where
  "prompt_answered name md answer w =
     (case modal_open name None w of
        (Done p, w1) \<Rightarrow>
          (let w2 = snd (modal_close name md answer w1)
           in if p < length (promises w2)
              then (case promises w2 ! p of
                      Resolved v \<Rightarrow> (Done v, w2)
                    | Unsettled \<Rightarrow> (Pending, w2))
              else (Pending, w2))
      | (Fail e, w1) \<Rightarrow> (Fail e, w1)
      | (Pending, w1) \<Rightarrow> (Pending, w1))"

text \<open>A world before anything has run, and the state of \<^verbatim>\<open>createModals\<close> installed in it.\<close>

definition world0 :: world where
  "world0 =
     \<lparr>hasLoadedApp = False, isAuthenticating = False, hasLogIn = False, user = None,
      activeTeam = JNull, contributors = [], currentSandbox = None,
      isForkingSandbox = False, sessionFrozen = False,
      modals = \<lparr>current = None, perModal = Map.empty\<rparr>,
      resolver = Map.empty, promises = [], jwt = None, trace = []\<rparr>"

definition install :: "created_modals \<Rightarrow> world \<Rightarrow> world" where
  "install cms w = w\<lparr>modals := out_state cms, resolver := Map.empty, promises := []\<rparr>"

definition example_modals :: "(string \<times> modal_def) list" where
  "example_modals =
     [(''forkFrozenModal'', \<lparr>md_state = None, md_result = JStr ''fork''\<rparr>),
      (''confirm'', \<lparr>md_state = Some [(''title'', JStr ''Sure?'')], md_result = JBool True\<rparr>)]"

definition example_world :: world where
  "example_world = install (createModals example_modals) world0"

text \<open>
  The promise \<open>p\<close> exists and is unsettled, and no \<^verbatim>\<open>resolver\<close> variable other than the one of
  modal \<open>a\<close> holds its resolve function.
\<close>

definition held_by :: "string \<Rightarrow> nat \<Rightarrow> world \<Rightarrow> bool" where
  "held_by a p w =
     (p < length (promises w) \<and> promises w ! p = Unsettled \<and> resolvers_allocated w \<and>
      (\<forall>n. n \<noteq> a \<longrightarrow> resolver w n \<noteq> Some p))"

text \<open>
  A statement that settles, leaves \<^verbatim>\<open>hasLoadedApp\<close> and \<^verbatim>\<open>isAuthenticating\<close> as they are and
  only adds calls to the trace.
\<close>

definition settles_quietly :: "unit action \<Rightarrow> bool" where
  "settles_quietly s =
     (\<forall>w. fst (s w) \<noteq> Pending \<and> hasLoadedApp (snd (s w)) = hasLoadedApp w \<and>
          isAuthenticating (snd (s w)) = isAuthenticating w \<and>
          (\<exists>es. trace (snd (s w)) = trace w @ es))"

text \<open>Collaborators for the examples: all succeed, or the named calls throw.\<close>

definition env_ok :: env where
  "env_ok =
     \<lparr>throws = (\<lambda>c. None),
      currentUser = Some \<lparr>user_id = ''u1'', email = ''u1@example.com''\<rparr>,
      storage = (\<lambda>k. JNull),
      contributorsFile = Some [''alice'']\<rparr>"

definition env_login_fails :: env where
  "env_login_fails =
     env_ok\<lparr>throws := (\<lambda>c. if c = Api_getCurrentUser then Some (Thrown ''401'') else None)\<rparr>"

definition env_survey_fails :: env where
  "env_survey_fails =
     env_ok\<lparr>throws := (\<lambda>c. if c = Internal_showUserSurveyIfNeeded
                           then Some (Thrown ''survey'') else None)\<rparr>"

definition env_teams_and_survey_fail :: env where
  "env_teams_and_survey_fail =
     env_ok\<lparr>throws := (\<lambda>c. if c = Internal_trackCurrentTeams then Some (Thrown ''teams'')
                           else if c = Internal_showUserSurveyIfNeeded
                           then Some (Thrown ''survey'')
                           else None)\<rparr>"

text \<open>Example continuation and cancellation actions: they leave a mark in the trace, or throw.\<close>

definition continue_marks :: "unit \<Rightarrow> unit action" where
  "continue_marks v = plain Continue_action"

definition cancel_marks :: "unit \<Rightarrow> unit action" where
  "cancel_marks v = plain Cancel_action"

definition continue_throws :: "unit \<Rightarrow> unit action" where
  "continue_throws v w = (Fail (Thrown ''continuation''), w)"

definition logged_in_world :: world where
  "logged_in_world = world0\<lparr>hasLogIn := True\<rparr>"

definition loaded_world :: world where
  "loaded_world = world0\<lparr>hasLoadedApp := True, hasLogIn := True\<rparr>"

definition legacy_world :: world where
  "legacy_world = world0\<lparr>hasLogIn := True, jwt := Some ''legacy-token''\<rparr>"

definition example_sandbox :: sandbox where
  "example_sandbox =
     \<lparr>sb_id = ''sb1'', owned = True, authorization = ''owner'', isFrozen = True\<rparr>"

definition foreign_sandbox :: sandbox where
  "foreign_sandbox =
     \<lparr>sb_id = ''sb2'', owned = False, authorization = ''read'', isFrozen = False\<rparr>"

definition logging_fork :: "bool \<Rightarrow> string \<Rightarrow> unit action" where
  "logging_fork succeeds sandboxId w =
     ((if succeeds then Done () else Fail (Thrown ''fork failed'')),
      called (Editor_forkSandbox sandboxId) w)"

definition example_context :: "jsval \<Rightarrow> bool \<Rightarrow> sandbox_context" where
  "example_context answer forkSucceeds =
     \<lparr>hasPermission = (\<lambda>auth perm. auth = ''owner'' \<or> auth = perm),
      forkSandbox = logging_fork forkSucceeds,
      forkFrozenModal_open =
        prompt_answered ''forkFrozenModal'' \<lparr>md_state = None, md_result = JStr ''fork''\<rparr> answer\<rparr>"

definition frozen_world :: world where
  "frozen_world = example_world\<lparr>currentSandbox := Some example_sandbox, sessionFrozen := True\<rparr>"

definition foreign_world :: world where
  "foreign_world = example_world\<lparr>currentSandbox := Some foreign_sandbox\<rparr>"

section \<open>Facts about createModals\<close>

lemma fold_actions:
  "out_actions (fold (\<lambda>name aggr.
             case map_of ms name of
               None \<Rightarrow> aggr
             | Some md \<Rightarrow>
                 (let modal = createModal name md
                  in aggr\<lparr>out_state := (out_state aggr)\<lparr>perModal :=
                              (perModal (out_state aggr))(name \<mapsto> cm_state modal)\<rparr>,
                          out_actions := (out_actions aggr)(name \<mapsto> cm_actions modal)\<rparr>)) ks a) name
   = (if name \<in> set ks \<and> map_of ms name \<noteq> None then map_option (\<lambda>md. cm_actions (createModal name md)) (map_of ms name) else out_actions a name)"
  by (induction ks arbitrary: a) (auto simp: Let_def split: option.splits)

lemma createModals_actions:
  "out_actions (createModals ms) name = map_option (\<lambda>md. cm_actions (createModal name md)) (map_of ms name)"
  unfolding createModals_def object_keys_def fold_actions
  by (auto simp: map_of_eq_None_iff)

lemma fold_state:
  "perModal (out_state (fold (\<lambda>name aggr.
             case map_of ms name of
               None \<Rightarrow> aggr
             | Some md \<Rightarrow>
                 (let modal = createModal name md
                  in aggr\<lparr>out_state := (out_state aggr)\<lparr>perModal :=
                              (perModal (out_state aggr))(name \<mapsto> cm_state modal)\<rparr>,
                          out_actions := (out_actions aggr)(name \<mapsto> cm_actions modal)\<rparr>)) ks a)) name
   = (if name \<in> set ks \<and> map_of ms name \<noteq> None then map_option (\<lambda>md. cm_state (createModal name md)) (map_of ms name) else perModal (out_state a) name)"
  by (induction ks arbitrary: a) (auto simp: Let_def split: option.splits)

lemma fold_current:
  "current (out_state (fold (\<lambda>name aggr.
             case map_of ms name of
               None \<Rightarrow> aggr
             | Some md \<Rightarrow>
                 (let modal = createModal name md
                  in aggr\<lparr>out_state := (out_state aggr)\<lparr>perModal :=
                              (perModal (out_state aggr))(name \<mapsto> cm_state modal)\<rparr>,
                          out_actions := (out_actions aggr)(name \<mapsto> cm_actions modal)\<rparr>)) ks a))
   = current (out_state a)"
  by (induction ks arbitrary: a) (auto simp: Let_def split: option.splits)

lemma createModals_perModal:
  "perModal (out_state (createModals ms)) name = map_option (\<lambda>md. cm_state (createModal name md)) (map_of ms name)"
  unfolding createModals_def object_keys_def fold_state
  by (auto simp: map_of_eq_None_iff)

lemma createModals_current: "current (out_state (createModals ms)) = None"
  unfolding createModals_def fold_current by simp

lemma produced_modal:
  assumes "out_actions (createModals ms) name = Some acts"
  obtains md where "map_of ms name = Some md" "act_open acts = modal_open name"
    "act_close acts = modal_close name md"
  using assms by (auto simp: createModals_actions createModal_def)

lemma modal_open_Done:
  assumes "modal_open n a w = (Done p, w')"
  shows "p = length (promises w)" "promises w' = promises w @ [Unsettled]"
    "resolver w' = (resolver w)(n \<mapsto> p)" "current (modals w') = Some n"
  using assms by (auto simp: modal_open_def Let_def split: option.splits)

lemma modal_open_cases:
  obtains (ok) "modal_open n a w = (Done (length (promises w)), snd (modal_open n a w))"
    | (fail) e where "fst (modal_open n a w) = Fail e"
       "promises (snd (modal_open n a w)) = promises w"
       "resolver (snd (modal_open n a w)) = resolver w"
  by (cases "perModal (modals w) n") (auto simp: modal_open_def Let_def)

lemma modal_open_current: "current (modals (snd (modal_open n a w))) = Some n"
  by (auto simp: modal_open_def Let_def split: option.splits)

lemma modal_close_resolver: "resolver (snd (modal_close n md v w)) = resolver w"
  by (auto simp: modal_close_def Let_def split: option.splits)

lemma modal_close_current: "current (modals (snd (modal_close n md v w))) = None"
  by (auto simp: modal_close_def Let_def split: option.splits)

lemma modal_close_promises:
  "promises (snd (modal_close n md v w)) =
     (case resolver w n of None \<Rightarrow> promises w
      | Some q \<Rightarrow> resolve q (js_or v (md_result md)) (promises w))"
  by (auto simp: modal_close_def Let_def split: option.splits)

lemma resolve_length: "length (resolve q v ps) = length ps"
  by (simp add: resolve_def)

lemma resolve_other: "q \<noteq> p \<Longrightarrow> resolve q v ps ! p = ps ! p"
  by (simp add: resolve_def)

lemma held_by_open: 
  assumes "held_by a p w"
  shows "held_by a p (snd (modal_open n x w))"
proof (cases rule: modal_open_cases[of n x w])
  case ok
  from modal_open_Done[OF ok] assms show ?thesis
    by (auto simp: held_by_def resolvers_allocated_def nth_append less_Suc_eq)
next
  case (fail e)
  with assms show ?thesis by (auto simp: held_by_def resolvers_allocated_def)
qed

lemma held_by_close:
  assumes "held_by a p w" "n \<noteq> a"
  shows "held_by a p (snd (modal_close n md v w))"
  using assms
  by (auto simp: held_by_def resolvers_allocated_def modal_close_promises modal_close_resolver
      resolve_length resolve_other split: option.splits)

lemma held_by_dispatch:
  assumes "held_by a p w" "\<not> is_close_of a op"
  shows "held_by a p (dispatch (out_actions (createModals ms)) op w)"
proof (cases op)
  case (Open n x)
  show ?thesis
  proof (cases "out_actions (createModals ms) n")
    case None
    with Open assms show ?thesis by simp
  next
    case (Some acts)
    then show ?thesis using Open assms held_by_open
      by (auto elim!: produced_modal)
  qed
next
  case (Close n v)
  show ?thesis
  proof (cases "out_actions (createModals ms) n")
    case None
    with Close assms show ?thesis by simp
  next
    case (Some acts)
    then show ?thesis using Close assms held_by_close
      by (auto elim!: produced_modal)
  qed
qed

lemma held_by_run:
  assumes "held_by a p w" "\<forall>op \<in> set ops. \<not> is_close_of a op"
  shows "held_by a p (run (out_actions (createModals ms)) ops w)"
  using assms unfolding run_def
  by (induction ops arbitrary: w) (auto simp: held_by_dispatch)

lemma resolver_dispatch:
  assumes "op_name op \<noteq> a"
  shows "resolver (dispatch (out_actions (createModals ms)) op w) a = resolver w a"
proof (cases op)
  case (Open n x)
  show ?thesis
  proof (cases "out_actions (createModals ms) n")
    case None
    with Open show ?thesis by simp
  next
    case (Some acts)
    then show ?thesis using Open assms
      by (cases rule: modal_open_cases[of n x w]) (auto elim!: produced_modal dest: modal_open_Done(3))
  qed
next
  case (Close n v)
  then show ?thesis
    by (cases "out_actions (createModals ms) n") (auto elim!: produced_modal simp: modal_close_resolver)
qed

lemma resolver_run:
  assumes "\<forall>op \<in> set ops. op_name op \<noteq> a"
  shows "resolver (run (out_actions (createModals ms)) ops w) a = resolver w a"
  using assms unfolding run_def
  by (induction ops arbitrary: w) (auto simp: resolver_dispatch)

lemma held_by_after_open:
  assumes "modal_open a x w = (Done p, w1)" "resolvers_allocated w"
  shows "held_by a p w1" "resolver w1 a = Some p"
  using modal_open_Done[OF assms(1)] assms(2)
  by (auto simp: held_by_def resolvers_allocated_def nth_append less_Suc_eq)


lemma resolvers_allocated_install: "resolvers_allocated (install cms w)"
  by (simp add: resolvers_allocated_def install_def)

lemma resolvers_allocated_dispatch:
  assumes "resolvers_allocated w"
  shows "resolvers_allocated (dispatch (out_actions (createModals ms)) op w)"
proof (cases op)
  case (Open n x)
  show ?thesis
  proof (cases "out_actions (createModals ms) n")
    case None
    with Open assms show ?thesis by simp
  next
    case (Some acts)
    then have o: "act_open acts = modal_open n" by (auto elim!: produced_modal)
    show ?thesis
    proof (cases rule: modal_open_cases[of n x w])
      case ok
      from modal_open_Done[OF ok] assms Open Some o show ?thesis
        by (auto simp: resolvers_allocated_def less_Suc_eq)
    next
      case (fail e)
      with assms Open Some o show ?thesis
        by (auto simp: resolvers_allocated_def)
    qed
  qed
next
  case (Close n v)
  then show ?thesis using assms
    by (cases "out_actions (createModals ms) n")
      (auto elim!: produced_modal
        simp: resolvers_allocated_def modal_close_resolver modal_close_promises resolve_length
        split: option.splits)
qed

lemma resolvers_allocated_run:
  assumes "resolvers_allocated w"
  shows "resolvers_allocated (run (out_actions (createModals ms)) ops w)"
  using assms unfolding run_def
  by (induction ops arbitrary: w) (auto simp: resolvers_allocated_dispatch)

lemma resolver_open_other:
  assumes "\<not> is_open_of a op"
  shows "resolver (dispatch (out_actions (createModals ms)) op w) a = resolver w a"
proof (cases op)
  case (Open n x)
  show ?thesis
  proof (cases "out_actions (createModals ms) n")
    case None
    with Open show ?thesis by simp
  next
    case (Some acts)
    then show ?thesis using Open assms
      by (cases rule: modal_open_cases[of n x w]) (auto elim!: produced_modal dest: modal_open_Done(3))
  qed
next
  case (Close n v)
  then show ?thesis
    by (cases "out_actions (createModals ms) n") (auto elim!: produced_modal simp: modal_close_resolver)
qed

lemma resolver_run_no_open:
  assumes "\<forall>op \<in> set ops. \<not> is_open_of a op"
  shows "resolver (run (out_actions (createModals ms)) ops w) a = resolver w a"
  using assms unfolding run_def
  by (induction ops arbitrary: w) (auto simp: resolver_open_other)

text \<open>
  C9: for every modal produced by \<^verbatim>\<open>createModals\<close>, as long as \<^verbatim>\<open>open\<close> has never been
  invoked on it (its \<^verbatim>\<open>resolver\<close> variable starts unassigned, and the dispatches so far
  contain no \<^verbatim>\<open>open\<close> of it), \<^verbatim>\<open>close\<close> throws the TypeError of calling \<^verbatim>\<open>undefined\<close>, and
  the world it leaves has the selector set to \<^verbatim>\<open>null\<close>: it is not a no-op.
\<close>

theorem close_before_open_throws:
  assumes "out_actions (createModals ms) name = Some acts"
      and "resolver w name = None"
      and "\<forall>op \<in> set ops. \<not> is_open_of name op"
      and "w' = run (out_actions (createModals ms)) ops w"
  shows "act_close acts payload w' =
           (Fail (TypeError ''resolver is not a function''),
            w'\<lparr>modals := (modals w')\<lparr>current := None\<rparr>\<rparr>)"
proof -
  from assms(1) obtain md where c: "act_close acts = modal_close name md"
    by (rule produced_modal)
  have "resolver w' name = None"
    using assms(2,3,4) by (simp add: resolver_run_no_open)
  then show ?thesis
    by (simp add: c modal_close_def)
qed

text \<open>
  C1, amended: for every modal produced by \<^verbatim>\<open>createModals\<close>, once an \<^verbatim>\<open>open\<close> call has
  returned its promise and while only other modals are opened or closed, \<^verbatim>\<open>close\<close> with a
  truthy payload resolves that promise with exactly the payload, and \<^verbatim>\<open>close\<close> with no
  payload or a falsy one (\<^verbatim>\<open>undefined\<close>, \<^verbatim>\<open>null\<close>, \<^verbatim>\<open>false\<close>, \<^verbatim>\<open>0\<close>, the empty string)
  resolves it with the modal's declared default result; in both cases \<^verbatim>\<open>close\<close> sets the
  current-modal selector to \<^verbatim>\<open>null\<close>.
\<close>

theorem close_resolves_pending_open:
  assumes "out_actions (createModals ms) name = Some acts"
      and "map_of ms name = Some md"
      and "resolvers_allocated w"
      and "act_open acts arg w = (Done p, w1)"
      and "\<forall>op \<in> set ops. op_name op \<noteq> name"
      and "w2 = run (out_actions (createModals ms)) ops w1"
  shows "fst (act_close acts payload w2) = Done () \<and>
         promises (snd (act_close acts payload w2)) ! p =
           Resolved (if truthy payload then payload else md_result md) \<and>
         current (modals (snd (act_close acts payload w2))) = None"
proof -
  from assms(1,2) have o: "act_open acts = modal_open name"
    and c: "act_close acts = modal_close name md"
    by (auto elim!: produced_modal)
  from assms(4) o have op: "modal_open name arg w = (Done p, w1)" by simp
  have h1: "held_by name p w1" and r1: "resolver w1 name = Some p"
    using held_by_after_open[OF op assms(3)] by auto
  have nc: "\<forall>op \<in> set ops. \<not> is_close_of name op"
  proof
    fix x assume "x \<in> set ops"
    with assms(5) have "op_name x \<noteq> name" by blast
    then show "\<not> is_close_of name x" by (cases x) auto
  qed
  have h2: "held_by name p w2"
    using held_by_run[OF h1 nc] assms(6) by simp
  have r2: "resolver w2 name = Some p"
    using resolver_run[OF assms(5)] r1 assms(6) by simp
  from h2 have "p < length (promises w2)" "promises w2 ! p = Unsettled"
    by (auto simp: held_by_def)
  then show ?thesis using r2
    by (simp add: c modal_close_def resolve_def js_or_def)
qed

text \<open>
  C4: for modals A and B produced by \<^verbatim>\<open>createModals\<close>, after \<^verbatim>\<open>open\<close> of A has returned its
  promise, any dispatches that do not close A, and then \<^verbatim>\<open>open\<close> of B, the selector holds
  the name of B and the promise of A is still unsettled. (The selector is one field, so
  one modal at most is current. A and B need not even differ.)
\<close>

theorem second_open_overrides_current:
  assumes "out_actions (createModals ms) a = Some actsA"
      and "out_actions (createModals ms) b = Some actsB"
      and "resolvers_allocated w"
      and "act_open actsA argA w = (Done pA, w1)"
      and "\<forall>op \<in> set ops. \<not> is_close_of a op"
      and "w2 = run (out_actions (createModals ms)) ops w1"
  shows "current (modals (snd (act_open actsB argB w2))) = Some b \<and>
         pA < length (promises (snd (act_open actsB argB w2))) \<and>
         promises (snd (act_open actsB argB w2)) ! pA = Unsettled"
proof -
  from assms(1) have oa: "act_open actsA = modal_open a"
    by (auto elim!: produced_modal)
  from assms(2) have ob: "act_open actsB = modal_open b"
    by (auto elim!: produced_modal)
  from assms(4) oa have op: "modal_open a argA w = (Done pA, w1)" by simp
  have h1: "held_by a pA w1"
    using held_by_after_open[OF op assms(3)] by auto
  have h2: "held_by a pA w2"
    using held_by_run[OF h1 assms(5)] assms(6) by simp
  have "held_by a pA (snd (modal_open b argB w2))"
    using h2 by (rule held_by_open)
  then show ?thesis
    by (simp add: ob modal_open_current held_by_def)
qed


lemma example_actions:
  "out_actions (createModals example_modals) ''confirm'' =
     Some \<lparr>act_open = modal_open ''confirm'',
           act_close = modal_close ''confirm''
             \<lparr>md_state = Some [(''title'', JStr ''Sure?'')], md_result = JBool True\<rparr>\<rparr>"
  "out_actions (createModals example_modals) ''forkFrozenModal'' =
     Some \<lparr>act_open = modal_open ''forkFrozenModal'',
           act_close = modal_close ''forkFrozenModal''
             \<lparr>md_state = None, md_result = JStr ''fork''\<rparr>\<rparr>"
  by (simp_all add: createModals_actions example_modals_def createModal_def)

lemma example_world_simps:
  "perModal (modals example_world) ''confirm'' =
     Some [(''title'', JStr ''Sure?''), (''isCurrent'', JIsCurrent ''confirm'')]"
  "perModal (modals example_world) ''forkFrozenModal'' =
     Some [(''isCurrent'', JIsCurrent ''forkFrozenModal'')]"
  "current (modals example_world) = None"
  "promises example_world = []"
  "resolver example_world = Map.empty"
  by (simp_all add: example_world_def install_def createModals_perModal createModals_current
      example_modals_def createModal_def object_assign_def)

lemma example_world_allocated: "resolvers_allocated example_world"
  by (simp add: resolvers_allocated_def example_world_simps)

lemma example_open_confirm:
  "modal_open ''confirm'' None example_world = (Done 0, snd (modal_open ''confirm'' None example_world))"
  by (simp add: modal_open_def example_world_simps Let_def)

text \<open>
  C1 fails as stated: \<^verbatim>\<open>close\<close> passes \<^verbatim>\<open>payload || modal.result\<close> to the resolver, so a falsy
  payload is replaced by the default. Here \<^verbatim>\<open>confirm\<close> declares the result \<^verbatim>\<open>true\<close>, is opened
  (promise 0) and closed with the payload \<^verbatim>\<open>false\<close>: the promise resolves with \<^verbatim>\<open>true\<close>.
\<close>

theorem close_falsy_payload_counterexample:
  "fst (act_open (the (out_actions (createModals example_modals) ''confirm'')) None example_world)
     = Done 0 \<and>
   promises (snd (act_close (the (out_actions (createModals example_modals) ''confirm''))
       (JBool False)
       (snd (act_open (the (out_actions (createModals example_modals) ''confirm'')) None
          example_world)))) ! 0 = Resolved (JBool True)"
  by (simp add: example_actions modal_open_def modal_close_def example_world_simps Let_def
      resolve_def js_or_def object_assign_def)

text \<open>
  C1 as amended, at an example: \<^verbatim>\<open>confirm\<close> is opened, the other modal is opened and closed,
  then \<^verbatim>\<open>confirm\<close> is closed with a string, or with no payload.
\<close>

theorem close_resolves_pending_open_witness:
  "fst (modal_open ''confirm'' None example_world) = Done 0 \<and>
   promises (snd (modal_close ''confirm''
       \<lparr>md_state = Some [(''title'', JStr ''Sure?'')], md_result = JBool True\<rparr> (JStr ''yes'')
       (run (out_actions (createModals example_modals))
          [Open ''forkFrozenModal'' None, Close ''forkFrozenModal'' (JStr ''cancel'')]
          (snd (modal_open ''confirm'' None example_world))))) ! 0 = Resolved (JStr ''yes'') \<and>
   promises (snd (modal_close ''confirm''
       \<lparr>md_state = Some [(''title'', JStr ''Sure?'')], md_result = JBool True\<rparr> JUndefined
       (run (out_actions (createModals example_modals))
          [Open ''forkFrozenModal'' None, Close ''forkFrozenModal'' (JStr ''cancel'')]
          (snd (modal_open ''confirm'' None example_world))))) ! 0 = Resolved (JBool True)"
proof -
  let ?md = "\<lparr>md_state = Some [(''title'', JStr ''Sure?'')], md_result = JBool True\<rparr>"
  let ?acts = "cm_actions (createModal ''confirm'' ?md)"
  let ?ops = "[Open ''forkFrozenModal'' None, Close ''forkFrozenModal'' (JStr ''cancel'')]"
  have h1: "out_actions (createModals example_modals) ''confirm'' = Some ?acts"
    by (simp add: example_actions createModal_def)
  have h2: "map_of example_modals ''confirm'' = Some ?md"
    by (simp add: example_modals_def)
  have h3: "resolvers_allocated example_world"
    by (rule example_world_allocated)
  have h4: "act_open ?acts None example_world =
      (Done 0, snd (modal_open ''confirm'' None example_world))"
    using example_open_confirm by (simp add: createModal_def)
  have h5: "\<forall>op \<in> set ?ops. op_name op \<noteq> ''confirm''"
    by simp
  have f: "fst (modal_open ''confirm'' None example_world) = Done 0"
    by (simp add: modal_open_def example_world_simps Let_def)
  from close_resolves_pending_open[OF h1 h2 h3 h4 h5 refl, of "JStr ''yes''"]
    close_resolves_pending_open[OF h1 h2 h3 h4 h5 refl, of JUndefined] f
  show ?thesis by (simp add: createModal_def)
qed

text \<open>
  C9, at an example: with only the other modal opened and closed so far, \<^verbatim>\<open>close\<close> of
  \<^verbatim>\<open>confirm\<close> rejects with the TypeError and leaves the selector at \<^verbatim>\<open>null\<close>.
\<close>

theorem close_before_open_throws_witness:
  "fst (modal_close ''confirm''
       \<lparr>md_state = Some [(''title'', JStr ''Sure?'')], md_result = JBool True\<rparr> (JStr ''yes'')
       (run (out_actions (createModals example_modals))
          [Open ''forkFrozenModal'' None] example_world))
     = Fail (TypeError ''resolver is not a function'') \<and>
   current (modals (run (out_actions (createModals example_modals))
          [Open ''forkFrozenModal'' None] example_world)) = Some ''forkFrozenModal'' \<and>
   current (modals (snd (modal_close ''confirm''
       \<lparr>md_state = Some [(''title'', JStr ''Sure?'')], md_result = JBool True\<rparr> (JStr ''yes'')
       (run (out_actions (createModals example_modals))
          [Open ''forkFrozenModal'' None] example_world)))) = None"
proof -
  let ?md = "\<lparr>md_state = Some [(''title'', JStr ''Sure?'')], md_result = JBool True\<rparr>"
  let ?acts = "cm_actions (createModal ''confirm'' ?md)"
  let ?ops = "[Open ''forkFrozenModal'' None]"
  have h1: "out_actions (createModals example_modals) ''confirm'' = Some ?acts"
    by (simp add: example_actions createModal_def)
  have h2: "resolver example_world ''confirm'' = None"
    by (simp add: example_world_simps)
  have h3: "\<forall>op \<in> set ?ops. \<not> is_open_of ''confirm'' op"
    by simp
  have c: "current (modals (run (out_actions (createModals example_modals)) ?ops example_world))
      = Some ''forkFrozenModal''"
    by (simp add: run_def example_actions modal_open_current)
  from close_before_open_throws[OF h1 h2 h3 refl, of "JStr ''yes''"] c
  show ?thesis by (simp add: createModal_def)
qed

text \<open>
  C4, at an example: \<^verbatim>\<open>confirm\<close> is opened, the other modal is closed and \<^verbatim>\<open>confirm\<close> opened
  once more, then \<^verbatim>\<open>forkFrozenModal\<close> is opened.
\<close>

theorem second_open_overrides_current_witness:
  "fst (modal_open ''confirm'' None example_world) = Done 0 \<and>
   current (modals (snd (modal_open ''forkFrozenModal'' None
       (run (out_actions (createModals example_modals))
          [Close ''forkFrozenModal'' JUndefined, Open ''confirm'' None]
          (snd (modal_open ''confirm'' None example_world)))))) = Some ''forkFrozenModal'' \<and>
   promises (snd (modal_open ''forkFrozenModal'' None
       (run (out_actions (createModals example_modals))
          [Close ''forkFrozenModal'' JUndefined, Open ''confirm'' None]
          (snd (modal_open ''confirm'' None example_world))))) ! 0 = Unsettled"
proof -
  let ?mdA = "\<lparr>md_state = Some [(''title'', JStr ''Sure?'')], md_result = JBool True\<rparr>"
  let ?mdB = "\<lparr>md_state = None, md_result = JStr ''fork''\<rparr>"
  let ?actsA = "cm_actions (createModal ''confirm'' ?mdA)"
  let ?actsB = "cm_actions (createModal ''forkFrozenModal'' ?mdB)"
  let ?ops = "[Close ''forkFrozenModal'' JUndefined, Open ''confirm'' None]"
  have h1: "out_actions (createModals example_modals) ''confirm'' = Some ?actsA"
    by (simp add: example_actions createModal_def)
  have h2: "out_actions (createModals example_modals) ''forkFrozenModal'' = Some ?actsB"
    by (simp add: example_actions createModal_def)
  have h3: "resolvers_allocated example_world"
    by (rule example_world_allocated)
  have h4: "act_open ?actsA None example_world =
      (Done 0, snd (modal_open ''confirm'' None example_world))"
    using example_open_confirm by (simp add: createModal_def)
  have h5: "\<forall>op \<in> set ?ops. \<not> is_close_of ''confirm'' op"
    by simp
  have f: "fst (modal_open ''confirm'' None example_world) = Done 0"
    by (simp add: modal_open_def example_world_simps Let_def)
  from second_open_overrides_current[OF h1 h2 h3 h4 h5 refl, of None] f
  show ?thesis by (simp add: createModal_def)
qed

section \<open>Facts about withLoadApp\<close>

lemma settles_quietly_guarded: "settles_quietly (guarded env c)"
  by (auto simp: settles_quietly_def guarded_def called_def split: option.splits)

lemma settles_quietly_plain: "settles_quietly (plain c)"
  by (auto simp: settles_quietly_def plain_def called_def)

lemma settles_quietly_assign:
  assumes "\<And>w. hasLoadedApp (f w) = hasLoadedApp w" "\<And>w. isAuthenticating (f w) = isAuthenticating w"
    "\<And>w. trace (f w) = trace w"
  shows "settles_quietly (assign f)"
  using assms by (auto simp: settles_quietly_def assign_def)

lemma settles_quietly_step:
  assumes "settles_quietly s" "settles_quietly t"
  shows "settles_quietly (step s (\<lambda>_. t))"
  unfolding settles_quietly_def
proof
  fix w
  obtain r w1 where sw: "s w = (r, w1)" by (cases "s w")
  from assms(1) sw have a: "r \<noteq> Pending" "hasLoadedApp w1 = hasLoadedApp w"
    "isAuthenticating w1 = isAuthenticating w" "\<exists>es. trace w1 = trace w @ es"
    by (auto simp: settles_quietly_def dest!: spec[of _ w])
  show "fst (step s (\<lambda>_. t) w) \<noteq> Pending \<and>
         hasLoadedApp (snd (step s (\<lambda>_. t) w)) = hasLoadedApp w \<and>
         isAuthenticating (snd (step s (\<lambda>_. t) w)) = isAuthenticating w \<and>
         (\<exists>es. trace (snd (step s (\<lambda>_. t) w)) = trace w @ es)"
  proof (cases r)
    case (Done u)
    from assms(2) have "fst (t w1) \<noteq> Pending" "hasLoadedApp (snd (t w1)) = hasLoadedApp w1"
      "isAuthenticating (snd (t w1)) = isAuthenticating w1" "\<exists>es. trace (snd (t w1)) = trace w1 @ es"
      by (auto simp: settles_quietly_def dest!: spec[of _ w1])
    with a Done sw show ?thesis by (auto simp: step_def)
  next
    case (Fail e)
    with a sw show ?thesis by (auto simp: step_def)
  next
    case Pending
    with a show ?thesis by simp
  qed
qed

lemma settles_quietly_block:
  assumes "\<forall>s \<in> set ss. settles_quietly s"
  shows "settles_quietly (block ss)"
  using assms
proof (induction ss)
  case Nil
  have "block [] = (\<lambda>w. (Done (), w))" by (rule ext) simp
  then show ?case by (simp add: settles_quietly_def)
next
  case (Cons s ss)
  have "block (s # ss) = step s (\<lambda>_. block ss)" by (rule ext) simp
  with Cons show ?case by (simp add: settles_quietly_step)
qed

lemma settles_quietly_try_catch:
  assumes "settles_quietly body" "\<And>e. settles_quietly (h e)"
  shows "settles_quietly (try_catch body h)"
  unfolding settles_quietly_def
proof
  fix w
  obtain r w1 where sw: "body w = (r, w1)" by (cases "body w")
  from assms(1) sw have a: "r \<noteq> Pending" "hasLoadedApp w1 = hasLoadedApp w"
    "isAuthenticating w1 = isAuthenticating w" "\<exists>es. trace w1 = trace w @ es"
    by (auto simp: settles_quietly_def dest!: spec[of _ w])
  show "fst (try_catch body h w) \<noteq> Pending \<and>
         hasLoadedApp (snd (try_catch body h w)) = hasLoadedApp w \<and>
         isAuthenticating (snd (try_catch body h w)) = isAuthenticating w \<and>
         (\<exists>es. trace (snd (try_catch body h w)) = trace w @ es)"
  proof (cases r)
    case (Done u)
    with a sw show ?thesis by (auto simp: try_catch_def)
  next
    case (Fail e)
    from assms(2)[of e] have "fst (h e w1) \<noteq> Pending" "hasLoadedApp (snd (h e w1)) = hasLoadedApp w1"
      "isAuthenticating (snd (h e w1)) = isAuthenticating w1" "\<exists>es. trace (snd (h e w1)) = trace w1 @ es"
      by (auto simp: settles_quietly_def dest!: spec[of _ w1])
    with a Fail sw show ?thesis by (auto simp: try_catch_def)
  next
    case Pending
    with a show ?thesis by simp
  qed
qed

lemma settles_quietly_user_step:
  "settles_quietly (\<lambda>w. case user w of
                None \<Rightarrow> (Fail (TypeError ''Cannot read properties of null''), w)
              | Some u \<Rightarrow> guarded env (Analytics_setUserId (user_id u) (email u)) w)"
  by (auto simp: settles_quietly_def guarded_def called_def split: option.splits)

lemma settles_quietly_login_body: "settles_quietly (login_body env)"
  unfolding login_body_def
  by (rule settles_quietly_block)
    (auto intro!: settles_quietly_guarded settles_quietly_assign settles_quietly_try_catch settles_quietly_user_step split: if_splits)

lemma settles_quietly_legacy_token: "settles_quietly legacy_token"
proof -
  have "settles_quietly (block
             [plain Document_cookie_expire,
              assign (\<lambda>w. w\<lparr>hasLogIn := False\<rparr>),
              assign (\<lambda>w. w\<lparr>jwt := None\<rparr>),
              plain (NotificationState_addNotification ''Session Expired'')])"
    by (rule settles_quietly_block) (auto intro!: settles_quietly_plain settles_quietly_assign)
  then show ?thesis
    by (auto simp: settles_quietly_def legacy_token_def)
qed

lemma settles_quietly_login_or_anonymous: "settles_quietly (login_or_anonymous env)"
proof -
  have a: "settles_quietly (try_catch (login_body env)
             (\<lambda>error. plain (Internal_handleError ''We had trouble with signing you in'' error)))"
    by (intro settles_quietly_try_catch settles_quietly_login_body settles_quietly_plain)
  have b: "settles_quietly (block [plain (Identify ''signed_in'' False), plain Analytics_setAnonymousId])"
    by (rule settles_quietly_block) (auto intro!: settles_quietly_plain)
  from a b show ?thesis
    by (auto simp: settles_quietly_def login_or_anonymous_def)
qed


lemma login_or_anonymous_Done: "fst (login_or_anonymous env w) = Done ()"
proof (cases "hasLogIn w")
  case True
  obtain r w1 where b: "login_body env w = (r, w1)" by (cases "login_body env w")
  from settles_quietly_login_body[of env] b have "r \<noteq> Pending"
    by (auto simp: settles_quietly_def dest!: spec[of _ w])
  with True b show ?thesis
    by (cases r) (auto simp: login_or_anonymous_def try_catch_def plain_def)
next
  case False
  then show ?thesis
    by (simp add: login_or_anonymous_def step_def plain_def)
qed

lemma legacy_token_Done: "fst (legacy_token w) = Done ()"
  by (simp add: legacy_token_def step_def plain_def assign_def)

lemma bootstrap_unfold:
  "bootstrap env w =
     login_or_anonymous env (snd (legacy_token
       (w\<lparr>isAuthenticating := True,
          trace := trace w @ [Connection_addListener, Internal_setStoredSettings,
                              CodesandboxApi_listen]\<rparr>)))"
proof -
  let ?w3 = "w\<lparr>isAuthenticating := True,
          trace := trace w @ [Connection_addListener, Internal_setStoredSettings,
                              CodesandboxApi_listen]\<rparr>"
  obtain r w4 where l: "legacy_token ?w3 = (r, w4)" by (cases "legacy_token ?w3")
  with legacy_token_Done[of ?w3] have r: "r = Done ()" by simp
  obtain r' w5 where l': "login_or_anonymous env w4 = (r', w5)"
    by (cases "login_or_anonymous env w4")
  with login_or_anonymous_Done[of env w4] have r': "r' = Done ()" by simp
  show ?thesis
    by (simp add: bootstrap_def step_def assign_def plain_def called_def l r l' r')
qed

lemma bootstrap_facts:
  "fst (bootstrap env w) = Done ()"
  "hasLoadedApp (snd (bootstrap env w)) = hasLoadedApp w"
  "isAuthenticating (snd (bootstrap env w))"
  "\<exists>es. trace (snd (bootstrap env w)) =
      trace w @ [Connection_addListener, Internal_setStoredSettings, CodesandboxApi_listen] @ es"
proof -
  let ?w3 = "w\<lparr>isAuthenticating := True,
          trace := trace w @ [Connection_addListener, Internal_setStoredSettings,
                              CodesandboxApi_listen]\<rparr>"
  let ?w4 = "snd (legacy_token ?w3)"
  from settles_quietly_legacy_token have a: "hasLoadedApp ?w4 = hasLoadedApp ?w3"
    "isAuthenticating ?w4 = isAuthenticating ?w3" "\<exists>es. trace ?w4 = trace ?w3 @ es"
    by (auto simp: settles_quietly_def dest!: spec[of _ ?w3])
  from settles_quietly_login_or_anonymous[of env]
  have b: "hasLoadedApp (snd (login_or_anonymous env ?w4)) = hasLoadedApp ?w4"
    "isAuthenticating (snd (login_or_anonymous env ?w4)) = isAuthenticating ?w4"
    "\<exists>es. trace (snd (login_or_anonymous env ?w4)) = trace ?w4 @ es"
    by (auto simp: settles_quietly_def dest!: spec[of _ ?w4])
  show "fst (bootstrap env w) = Done ()"
    by (simp add: bootstrap_unfold login_or_anonymous_Done)
  show "hasLoadedApp (snd (bootstrap env w)) = hasLoadedApp w"
    using a(1) b(1) by (simp add: bootstrap_unfold)
  show "isAuthenticating (snd (bootstrap env w))"
    using a(2) b(2) by (simp add: bootstrap_unfold)
  from a(3) obtain es1 where e1: "trace ?w4 = trace ?w3 @ es1" by blast
  from b(3) obtain es2 where e2: "trace (snd (login_or_anonymous env ?w4)) = trace ?w4 @ es2"
    by blast
  show "\<exists>es. trace (snd (bootstrap env w)) =
      trace w @ [Connection_addListener, Internal_setStoredSettings, CodesandboxApi_listen] @ es"
    by (rule exI[of _ "es1 @ es2"]) (simp add: bootstrap_unfold e1 e2)
qed

lemma fetch_contributors_facts:
  "fst (fetch_contributors env w) = Done ()"
  "hasLoadedApp (snd (fetch_contributors env w)) = hasLoadedApp w"
  "isAuthenticating (snd (fetch_contributors env w)) = isAuthenticating w"
  "trace (snd (fetch_contributors env w)) = trace w @ [Http_get CONTRIBUTORS_URL]"
  by (auto simp: fetch_contributors_def try_catch_def step_def guarded_def assign_def called_def
      split: option.splits)

lemma withLoadApp_first_Some:
  assumes "\<not> hasLoadedApp w"
  shows "withLoadApp env (Some k) v w =
     (case k v (snd (bootstrap env w)) of
        (Done u, w2) \<Rightarrow>
          (Done (), snd (fetch_contributors env (w2\<lparr>hasLoadedApp := True, isAuthenticating := False\<rparr>)))
      | (Fail e, w2) \<Rightarrow> (Fail e, w2)
      | (Pending, w2) \<Rightarrow> (Pending, w2))"
proof -
  obtain w1 where b: "bootstrap env w = (Done (), w1)"
    using bootstrap_facts(1)[of env w] by (cases "bootstrap env w") auto
  obtain r w2 where k: "k v w1 = (r, w2)" by (cases "k v w1")
  obtain w3 where f: "fetch_contributors env (w2\<lparr>hasLoadedApp := True, isAuthenticating := False\<rparr>)
      = (Done (), w3)"
    using fetch_contributors_facts(1)[of env "w2\<lparr>hasLoadedApp := True, isAuthenticating := False\<rparr>"]
    by (cases "fetch_contributors env (w2\<lparr>hasLoadedApp := True, isAuthenticating := False\<rparr>)") auto
  show ?thesis using assms
    by (cases r) (simp_all add: withLoadApp_def step_def assign_def b k f)
qed

lemma withLoadApp_first_None:
  assumes "\<not> hasLoadedApp w"
  shows "withLoadApp env (None :: ('v \<Rightarrow> 'r action) option) v w =
     (Done (), snd (fetch_contributors env
        ((snd (bootstrap env w))\<lparr>hasLoadedApp := True, isAuthenticating := False\<rparr>)))"
proof -
  obtain w1 where b: "bootstrap env w = (Done (), w1)"
    using bootstrap_facts(1)[of env w] by (cases "bootstrap env w") auto
  obtain w3 where f: "fetch_contributors env (w1\<lparr>hasLoadedApp := True, isAuthenticating := False\<rparr>)
      = (Done (), w3)"
    using fetch_contributors_facts(1)[of env "w1\<lparr>hasLoadedApp := True, isAuthenticating := False\<rparr>"]
    by (cases "fetch_contributors env (w1\<lparr>hasLoadedApp := True, isAuthenticating := False\<rparr>)") auto
  show ?thesis using assms
    by (simp add: withLoadApp_def step_def assign_def b f)
qed

text \<open>
  C2, amended: in a first invocation (\<^verbatim>\<open>hasLoadedApp\<close> false on entry) the continuation is
  called on the world that lines 28 to 92 leave: there \<^verbatim>\<open>hasLoadedApp\<close> is still false and
  the listener registrations, the settings load and the login or anonymous branch are in
  the trace. If the continuation returns normally (or none was supplied), the invocation
  resolves with \<^verbatim>\<open>hasLoadedApp\<close> true and \<^verbatim>\<open>isAuthenticating\<close> false, whatever the calls of the
  login sequence throw, and after the world the continuation returned only the
  contributors request is made. Nothing is promised when the continuation throws.
\<close>

theorem first_load_flags_after_continuation:
  assumes "\<not> hasLoadedApp w"
      and "k v (snd (bootstrap env w)) = (Done u, w2)"
  shows "\<not> hasLoadedApp (snd (bootstrap env w)) \<and>
         (\<exists>es. trace (snd (bootstrap env w)) =
            trace w @ [Connection_addListener, Internal_setStoredSettings,
                       CodesandboxApi_listen] @ es) \<and>
         fst (withLoadApp env (Some k) v w) = Done () \<and>
         hasLoadedApp (snd (withLoadApp env (Some k) v w)) \<and>
         \<not> isAuthenticating (snd (withLoadApp env (Some k) v w)) \<and>
         trace (snd (withLoadApp env (Some k) v w)) = trace w2 @ [Http_get CONTRIBUTORS_URL] \<and>
         fst (withLoadApp env (None :: ('v \<Rightarrow> 'r action) option) v w) = Done () \<and>
         hasLoadedApp (snd (withLoadApp env (None :: ('v \<Rightarrow> 'r action) option) v w)) \<and>
         \<not> isAuthenticating (snd (withLoadApp env (None :: ('v \<Rightarrow> 'r action) option) v w))"
  using assms bootstrap_facts(4)[of env w]
  by (simp add: withLoadApp_first_Some withLoadApp_first_None bootstrap_facts(2)
      fetch_contributors_facts)

text \<open>
  C5: when \<^verbatim>\<open>hasLoadedApp\<close> is already true, the action without a continuation returns at
  once and leaves the whole world as it is (no call is made, no field written); with a
  continuation its outcome and world are those of the continuation, run on the same
  world and payload, with the continuation's value dropped. Neither depends on the
  collaborators.
\<close>

theorem already_loaded_only_continues:
  assumes "hasLoadedApp w"
  shows "withLoadApp env (None :: ('v \<Rightarrow> 'r action) option) v w = (Done (), w) \<and>
         withLoadApp env (Some k) v w =
           (case k v w of
              (Done r, w') \<Rightarrow> (Done (), w')
            | (Fail e, w') \<Rightarrow> (Fail e, w')
            | (Pending, w') \<Rightarrow> (Pending, w'))"
  using assms
  by (auto simp: withLoadApp_def step_def assign_def split: prod.splits res.splits)

text \<open>
  C10: in a first invocation with a legacy token present (\<^verbatim>\<open>localStorage.jwt\<close> truthy), whatever
  \<^verbatim>\<open>hasLogIn\<close> was on entry, the world handed to the continuation has \<^verbatim>\<open>hasLogIn\<close> false and
  the token deleted, and the calls made are the three registrations, the cookie expiry,
  the notification and the anonymous branch (\<^verbatim>\<open>identify('signed_in', false)\<close> and
  \<^verbatim>\<open>setAnonymousId\<close>): neither \<^verbatim>\<open>getCurrentUser\<close> nor any other call of the logged-in
  sequence. Without a continuation, the contributors request is the only further call.
\<close>

theorem legacy_token_forces_anonymous:
  assumes "\<not> hasLoadedApp w"
      and "jwt w = Some t"
      and "t \<noteq> []"
  shows "snd (bootstrap env w) =
           w\<lparr>isAuthenticating := True, hasLogIn := False, jwt := None,
             trace := trace w @
               [Connection_addListener, Internal_setStoredSettings, CodesandboxApi_listen,
                Document_cookie_expire, NotificationState_addNotification ''Session Expired'',
                Identify ''signed_in'' False, Analytics_setAnonymousId]\<rparr> \<and>
         trace (snd (withLoadApp env (None :: ('v \<Rightarrow> 'r action) option) v w)) =
           trace w @
             [Connection_addListener, Internal_setStoredSettings, CodesandboxApi_listen,
              Document_cookie_expire, NotificationState_addNotification ''Session Expired'',
              Identify ''signed_in'' False, Analytics_setAnonymousId,
              Http_get CONTRIBUTORS_URL]"
proof -
  have b: "snd (bootstrap env w) =
           w\<lparr>isAuthenticating := True, hasLogIn := False, jwt := None,
             trace := trace w @
               [Connection_addListener, Internal_setStoredSettings, CodesandboxApi_listen,
                Document_cookie_expire, NotificationState_addNotification ''Session Expired'',
                Identify ''signed_in'' False, Analytics_setAnonymousId]\<rparr>"
    using assms(2,3)
    by (simp add: bootstrap_unfold legacy_token_def login_or_anonymous_def step_def plain_def
        assign_def called_def)
  show ?thesis
    using assms(1) by (simp add: withLoadApp_first_None fetch_contributors_facts b)
qed

text \<open>
  C3, amended: when the logged-in sequence gets as far as the user-survey trigger and the
  trigger throws, the error is passed to the centralized error handler with the message
  \<^verbatim>\<open>We had trouble with signing you in\<close> and the rest of the sequence is skipped; a failure of
  team tracking, by contrast, is swallowed (the trace is the same whether it throws or
  not), and so is a failure of the contributors request.
\<close>

theorem survey_failure_is_reported:
  assumes "\<not> hasLoadedApp w"
      and "hasLogIn w"
      and "jwt w = None"
      and "currentUser env = Some u"
      and "throws env Api_getCurrentUser = None"
      and "throws env Internal_setPatronPrice = None"
      and "throws env (Analytics_identify ''signed_in'' True) = None"
      and "throws env (Analytics_setUserId (user_id u) (email u)) = None"
      and "throws env (Storage_get TEAM_ID_LOCAL_STORAGE) = None"
      and "throws env Internal_showUserSurveyIfNeeded = Some e"
  shows "trace (snd (withLoadApp env (None :: ('v \<Rightarrow> 'r action) option) v w)) =
           trace w @
             [Connection_addListener, Internal_setStoredSettings, CodesandboxApi_listen,
              Api_getCurrentUser, Internal_setPatronPrice, Analytics_identify ''signed_in'' True,
              Analytics_setUserId (user_id u) (email u), Storage_get TEAM_ID_LOCAL_STORAGE,
              Internal_trackCurrentTeams, Internal_showUserSurveyIfNeeded,
              Internal_handleError ''We had trouble with signing you in'' e,
              Http_get CONTRIBUTORS_URL]"
proof -
  have "trace (snd (bootstrap env w)) =
           trace w @
             [Connection_addListener, Internal_setStoredSettings, CodesandboxApi_listen,
              Api_getCurrentUser, Internal_setPatronPrice, Analytics_identify ''signed_in'' True,
              Analytics_setUserId (user_id u) (email u), Storage_get TEAM_ID_LOCAL_STORAGE,
              Internal_trackCurrentTeams, Internal_showUserSurveyIfNeeded,
              Internal_handleError ''We had trouble with signing you in'' e]"
    using assms(2-)
    by (cases "throws env Internal_trackCurrentTeams")
      (simp_all add: bootstrap_unfold legacy_token_def login_or_anonymous_def login_body_def
        step_def try_catch_def plain_def guarded_def assign_def called_def)
  then show ?thesis
    using assms(1) by (simp add: withLoadApp_first_None fetch_contributors_facts)
qed

lemma world0_simps:
  "hasLoadedApp world0 = False" "hasLogIn world0 = False" "jwt world0 = None"
  "trace world0 = []" "isAuthenticating world0 = False"
  by (simp_all add: world0_def)

text \<open>
  C2 fails as stated: the continuation is awaited outside every \<^verbatim>\<open>try\<close> block, before line 98.
  With a continuation that throws, a first invocation rejects, \<^verbatim>\<open>hasLoadedApp\<close> stays false
  and \<^verbatim>\<open>isAuthenticating\<close> stays true.
\<close>

theorem throwing_continuation_counterexample:
  "fst (withLoadApp env_ok (Some continue_throws) () world0) = Fail (Thrown ''continuation'') \<and>
   \<not> hasLoadedApp (snd (withLoadApp env_ok (Some continue_throws) () world0)) \<and>
   isAuthenticating (snd (withLoadApp env_ok (Some continue_throws) () world0))"
  by (simp add: withLoadApp_first_Some world0_simps continue_throws_def bootstrap_facts)

text \<open>
  C2 as amended, at an example: the user is logged in, \<^verbatim>\<open>getCurrentUser\<close> rejects, the
  continuation leaves its mark.
\<close>

theorem first_load_flags_after_continuation_witness:
  "fst (withLoadApp env_login_fails (Some continue_marks) () logged_in_world) = Done () \<and>
   hasLoadedApp (snd (withLoadApp env_login_fails (Some continue_marks) () logged_in_world)) \<and>
   \<not> isAuthenticating (snd (withLoadApp env_login_fails (Some continue_marks) () logged_in_world)) \<and>
   trace (snd (withLoadApp env_login_fails (Some continue_marks) () logged_in_world)) =
     [Connection_addListener, Internal_setStoredSettings, CodesandboxApi_listen,
      Api_getCurrentUser,
      Internal_handleError ''We had trouble with signing you in'' (Thrown ''401''),
      Continue_action, Http_get CONTRIBUTORS_URL]"
proof -
  let ?w1 = "snd (bootstrap env_login_fails logged_in_world)"
  have h1: "\<not> hasLoadedApp logged_in_world"
    by (simp add: logged_in_world_def world0_simps)
  have h2: "continue_marks () ?w1 = (Done (), called Continue_action ?w1)"
    by (simp add: continue_marks_def plain_def)
  have t: "trace ?w1 =
     [Connection_addListener, Internal_setStoredSettings, CodesandboxApi_listen,
      Api_getCurrentUser,
      Internal_handleError ''We had trouble with signing you in'' (Thrown ''401'')]"
    by (simp add: bootstrap_unfold legacy_token_def login_or_anonymous_def login_body_def
        step_def try_catch_def plain_def guarded_def called_def logged_in_world_def
        env_login_fails_def env_ok_def world0_def)
  note r = first_load_flags_after_continuation[of logged_in_world continue_marks "()"
      env_login_fails "()" "called Continue_action ?w1", OF h1 h2]
  from r have "fst (withLoadApp env_login_fails (Some continue_marks) () logged_in_world) = Done ()"
    and "hasLoadedApp (snd (withLoadApp env_login_fails (Some continue_marks) () logged_in_world))"
    and "\<not> isAuthenticating (snd (withLoadApp env_login_fails (Some continue_marks) ()
           logged_in_world))"
    and "trace (snd (withLoadApp env_login_fails (Some continue_marks) () logged_in_world)) =
           trace (called Continue_action ?w1) @ [Http_get CONTRIBUTORS_URL]"
    by blast+
  then show ?thesis by (simp add: called_def t)
qed

text \<open>C5, at an example.\<close>

theorem already_loaded_only_continues_witness:
  "withLoadApp env_ok (None :: (unit \<Rightarrow> unit action) option) () loaded_world =
     (Done (), loaded_world) \<and>
   withLoadApp env_ok (Some continue_marks) () loaded_world =
     (Done (), loaded_world\<lparr>trace := [Continue_action]\<rparr>)"
proof -
  have h: "hasLoadedApp loaded_world" by (simp add: loaded_world_def)
  from already_loaded_only_continues[OF h, of env_ok "()" continue_marks]
  show ?thesis
    by (simp add: continue_marks_def plain_def called_def loaded_world_def world0_def)
qed

text \<open>C10, at an example: \<^verbatim>\<open>hasLogIn\<close> is true on entry.\<close>

theorem legacy_token_forces_anonymous_witness:
  "trace (snd (withLoadApp env_ok (None :: (unit \<Rightarrow> unit action) option) () legacy_world)) =
     [Connection_addListener, Internal_setStoredSettings, CodesandboxApi_listen,
      Document_cookie_expire, NotificationState_addNotification ''Session Expired'',
      Identify ''signed_in'' False, Analytics_setAnonymousId, Http_get CONTRIBUTORS_URL] \<and>
   hasLogIn (snd (bootstrap env_ok legacy_world)) = False"
proof -
  have h1: "\<not> hasLoadedApp legacy_world" by (simp add: legacy_world_def world0_def)
  have h2: "jwt legacy_world = Some ''legacy-token''" by (simp add: legacy_world_def)
  have h3: "''legacy-token'' \<noteq> []" by simp
  have t: "trace legacy_world = []" by (simp add: legacy_world_def world0_def)
  from legacy_token_forces_anonymous[OF h1 h2 h3, of env_ok "()"]
  have b: "snd (bootstrap env_ok legacy_world) =
           legacy_world\<lparr>isAuthenticating := True, hasLogIn := False, jwt := None,
             trace := trace legacy_world @
               [Connection_addListener, Internal_setStoredSettings, CodesandboxApi_listen,
                Document_cookie_expire, NotificationState_addNotification ''Session Expired'',
                Identify ''signed_in'' False, Analytics_setAnonymousId]\<rparr>"
    and c: "trace (snd (withLoadApp env_ok (None :: (unit \<Rightarrow> unit action) option) ()
              legacy_world)) =
           trace legacy_world @
             [Connection_addListener, Internal_setStoredSettings, CodesandboxApi_listen,
              Document_cookie_expire, NotificationState_addNotification ''Session Expired'',
              Identify ''signed_in'' False, Analytics_setAnonymousId,
              Http_get CONTRIBUTORS_URL]"
    by blast+
  show ?thesis by (simp add: b c t)
qed

text \<open>
  C3 fails as stated: \<^verbatim>\<open>showUserSurveyIfNeeded\<close> is called inside the outer \<^verbatim>\<open>try\<close> only, so
  its failure reaches \<^verbatim>\<open>handleError\<close> and ends the logged-in sequence: the socket, the
  notifications and the template preload are never reached.
\<close>

theorem survey_failure_counterexample:
  "trace (snd (withLoadApp env_survey_fails (None :: (unit \<Rightarrow> unit action) option) ()
       logged_in_world)) =
     [Connection_addListener, Internal_setStoredSettings, CodesandboxApi_listen,
      Api_getCurrentUser, Internal_setPatronPrice, Analytics_identify ''signed_in'' True,
      Analytics_setUserId ''u1'' ''u1@example.com'', Storage_get TEAM_ID_LOCAL_STORAGE,
      Internal_trackCurrentTeams, Internal_showUserSurveyIfNeeded,
      Internal_handleError ''We had trouble with signing you in'' (Thrown ''survey''),
      Http_get CONTRIBUTORS_URL]"
proof -
  have h1: "\<not> hasLoadedApp logged_in_world"
    by (simp add: logged_in_world_def world0_simps)
  have "trace (snd (bootstrap env_survey_fails logged_in_world)) =
     [Connection_addListener, Internal_setStoredSettings, CodesandboxApi_listen,
      Api_getCurrentUser, Internal_setPatronPrice, Analytics_identify ''signed_in'' True,
      Analytics_setUserId ''u1'' ''u1@example.com'', Storage_get TEAM_ID_LOCAL_STORAGE,
      Internal_trackCurrentTeams, Internal_showUserSurveyIfNeeded,
      Internal_handleError ''We had trouble with signing you in'' (Thrown ''survey'')]"
    by (simp add: bootstrap_unfold legacy_token_def login_or_anonymous_def login_body_def
        step_def try_catch_def plain_def guarded_def assign_def called_def logged_in_world_def
        env_survey_fails_def env_ok_def world0_def)
  then show ?thesis
    using h1 by (simp add: withLoadApp_first_None fetch_contributors_facts)
qed

text \<open>C3 as amended, at an example: team tracking and the survey trigger both throw.\<close>

theorem survey_failure_is_reported_witness:
  "trace (snd (withLoadApp env_teams_and_survey_fail (None :: (unit \<Rightarrow> unit action) option) ()
       logged_in_world)) =
     [Connection_addListener, Internal_setStoredSettings, CodesandboxApi_listen,
      Api_getCurrentUser, Internal_setPatronPrice, Analytics_identify ''signed_in'' True,
      Analytics_setUserId ''u1'' ''u1@example.com'', Storage_get TEAM_ID_LOCAL_STORAGE,
      Internal_trackCurrentTeams, Internal_showUserSurveyIfNeeded,
      Internal_handleError ''We had trouble with signing you in'' (Thrown ''survey''),
      Http_get CONTRIBUTORS_URL]"
proof -
  let ?u = "\<lparr>user_id = ''u1'', email = ''u1@example.com''\<rparr>"
  have h1: "\<not> hasLoadedApp logged_in_world"
    by (simp add: logged_in_world_def world0_simps)
  have h2: "hasLogIn logged_in_world" by (simp add: logged_in_world_def)
  have h3: "jwt logged_in_world = None" by (simp add: logged_in_world_def world0_simps)
  have h4: "currentUser env_teams_and_survey_fail = Some ?u"
    by (simp add: env_teams_and_survey_fail_def env_ok_def)
  have h5: "throws env_teams_and_survey_fail Api_getCurrentUser = None"
    by (simp add: env_teams_and_survey_fail_def)
  have h6: "throws env_teams_and_survey_fail Internal_setPatronPrice = None"
    by (simp add: env_teams_and_survey_fail_def)
  have h7: "throws env_teams_and_survey_fail (Analytics_identify ''signed_in'' True) = None"
    by (simp add: env_teams_and_survey_fail_def)
  have h8: "throws env_teams_and_survey_fail (Analytics_setUserId (user_id ?u) (email ?u)) = None"
    by (simp add: env_teams_and_survey_fail_def)
  have h9: "throws env_teams_and_survey_fail (Storage_get TEAM_ID_LOCAL_STORAGE) = None"
    by (simp add: env_teams_and_survey_fail_def)
  have h10: "throws env_teams_and_survey_fail Internal_showUserSurveyIfNeeded
      = Some (Thrown ''survey'')"
    by (simp add: env_teams_and_survey_fail_def)
  have t: "trace logged_in_world = []" by (simp add: logged_in_world_def world0_simps)
  from survey_failure_is_reported[OF h1 h2 h3 h4 h5 h6 h7 h8 h9 h10, of "()"] t
  show ?thesis by simp
qed

section \<open>Facts about withOwnedSandbox\<close>

text \<open>
  C6, amended: with no required permission, an active sandbox owned by the current user,
  and not both the sandbox frozen and the session freeze override active, the wrapped
  action is the continuation on the unchanged world, whatever \<^verbatim>\<open>forkSandbox\<close> and the modal
  would do: no fork is attempted.
\<close>

theorem owned_unfrozen_continues:
  assumes "currentSandbox w = Some sb"
      and "owned sb"
      and "\<not> (isFrozen sb \<and> sessionFrozen w)"
  shows "withOwnedSandbox ctx continueAction cancelAction None payload w =
           continueAction payload w"
  using assms by (auto simp: withOwnedSandbox_def Let_def)

text \<open>
  C7: when access is denied (no required permission and the sandbox not owned, or the
  required permission not satisfied) and either a fork is already in progress or the fork
  attempt throws, the wrapped action returns what the cancellation action returns, on the
  world the failed attempt left; the continuation plays no part, whatever it is. With the
  default cancellation action the promise resolves: the fork's error goes no further.
\<close>

theorem denied_fork_failure_cancels:
  assumes "currentSandbox w = Some sb"
      and "case requiredPermission of
             None \<Rightarrow> \<not> owned sb
           | Some perm \<Rightarrow> \<not> hasPermission ctx (authorization sb) perm"
      and "(isForkingSandbox w \<and> w1 = w) \<or>
           (\<not> isForkingSandbox w \<and> forkSandbox ctx (sb_id sb) w = (Fail e, w1))"
  shows "withOwnedSandbox ctx continueAction (Some cancel) requiredPermission payload w =
           cancel payload w1 \<and>
         withOwnedSandbox ctx continueAction None requiredPermission payload w = (Done (), w1)"
  using assms
  by (auto simp: withOwnedSandbox_def Let_def fork_or_cancel_def default_cancel_def split: option.splits)

text \<open>
  C8: when access is not denied, the sandbox is frozen and the session freeze override is
  active, \<^verbatim>\<open>forkFrozenModal.open\<close> is awaited, and if it resolves with \<^verbatim>\<open>unfreeze\<close> the wrapped
  action is the continuation on the world the modal left with \<^verbatim>\<open>sessionFrozen\<close> set to false.
\<close>

theorem unfreeze_clears_override_and_continues:
  assumes "currentSandbox w = Some sb"
      and "case requiredPermission of
             None \<Rightarrow> owned sb
           | Some perm \<Rightarrow> hasPermission ctx (authorization sb) perm"
      and "isFrozen sb"
      and "sessionFrozen w"
      and "forkFrozenModal_open ctx w = (Done (JStr ''unfreeze''), w1)"
  shows "withOwnedSandbox ctx continueAction cancelAction requiredPermission payload w =
           continueAction payload (w1\<lparr>sessionFrozen := False\<rparr>)"
  using assms
  by (auto simp: withOwnedSandbox_def Let_def split: option.splits)


lemma example_world_modal:
  "perModal (modals example_world) ''forkFrozenModal'' =
     Some [(''isCurrent'', JIsCurrent ''forkFrozenModal'')]"
  "promises example_world = []"
  "resolver example_world = Map.empty"
  "trace example_world = []"
  "isForkingSandbox example_world = False"
  by (simp_all add: example_world_simps) (simp_all add: example_world_def install_def world0_def)

lemma frozen_world_simps:
  "currentSandbox frozen_world = Some example_sandbox"
  "sessionFrozen frozen_world"
  "isForkingSandbox frozen_world = False"
  "trace frozen_world = []"
  by (simp_all add: frozen_world_def example_world_modal)

lemma example_sandbox_simps:
  "owned example_sandbox" "isFrozen example_sandbox" "sb_id example_sandbox = ''sb1''"
  by (simp_all add: example_sandbox_def)

lemma frozen_world_prompt:
  "prompt_answered ''forkFrozenModal'' \<lparr>md_state = None, md_result = JStr ''fork''\<rparr> answer
     frozen_world =
   (Done (js_or answer (JStr ''fork'')),
    frozen_world
      \<lparr>modals := (modals frozen_world)\<lparr>current := None\<rparr>,
       promises := [Resolved (js_or answer (JStr ''fork''))],
       resolver := [''forkFrozenModal'' \<mapsto> 0]\<rparr>)"
  by (simp add: prompt_answered_def modal_open_def modal_close_def Let_def frozen_world_def
      example_world_modal resolve_def object_assign_def map_upd_triv[of "perModal (modals example_world)" "''forkFrozenModal''"])

text \<open>
  C6 fails as stated: an owned sandbox that is frozen, with the session freeze override
  active, leads to the prompt. Answered \<^verbatim>\<open>cancel\<close>, the cancellation runs and the continuation
  does not; answered \<^verbatim>\<open>fork\<close>, the sandbox is forked.
\<close>

theorem owned_frozen_counterexample:
  "trace (snd (withOwnedSandbox (example_context (JStr ''cancel'') True) continue_marks
      (Some cancel_marks) None () frozen_world)) = [Cancel_action] \<and>
   trace (snd (withOwnedSandbox (example_context (JStr ''fork'') True) continue_marks
      (Some cancel_marks) None () frozen_world)) = [Editor_forkSandbox ''sb1'', Continue_action]"
  by (simp add: withOwnedSandbox_def example_context_def frozen_world_prompt js_or_def
      fork_or_cancel_def logging_fork_def continue_marks_def cancel_marks_def plain_def
      called_def frozen_world_simps example_sandbox_simps)

text \<open>C6 as amended, at an example: the sandbox is frozen, the session override is off.\<close>

theorem owned_unfrozen_continues_witness:
  "withOwnedSandbox (example_context (JStr ''fork'') True) continue_marks (Some cancel_marks)
     None () (frozen_world\<lparr>sessionFrozen := False\<rparr>) =
   (Done (), frozen_world\<lparr>sessionFrozen := False, trace := [Continue_action]\<rparr>)"
proof -
  let ?w = "frozen_world\<lparr>sessionFrozen := False\<rparr>"
  have h1: "currentSandbox ?w = Some example_sandbox" by (simp add: frozen_world_def)
  have h2: "owned example_sandbox" by (simp add: example_sandbox_def)
  have h3: "\<not> (isFrozen example_sandbox \<and> sessionFrozen ?w)" by simp
  from owned_unfrozen_continues[OF h1 h2 h3, of "example_context (JStr ''fork'') True"
      continue_marks "Some cancel_marks" "()"]
  show ?thesis
    by (simp add: continue_marks_def plain_def called_def frozen_world_def example_world_modal)
qed

text \<open>
  C7, at an example: a sandbox of someone else, a fork that fails; with no required
  permission and a marking cancellation, then with a required permission and the default
  cancellation.
\<close>

theorem denied_fork_failure_cancels_witness:
  "withOwnedSandbox (example_context JUndefined False) continue_marks (Some cancel_marks)
     None () foreign_world =
   (Done (), foreign_world\<lparr>trace := [Editor_forkSandbox ''sb2'', Cancel_action]\<rparr>) \<and>
   withOwnedSandbox (example_context JUndefined False) continue_marks None
     (Some ''write_code'') () foreign_world =
   (Done (), foreign_world\<lparr>trace := [Editor_forkSandbox ''sb2'']\<rparr>)"
proof -
  let ?ctx = "example_context JUndefined False"
  let ?w1 = "foreign_world\<lparr>trace := [Editor_forkSandbox ''sb2'']\<rparr>"
  have h1: "currentSandbox foreign_world = Some foreign_sandbox"
    by (simp add: foreign_world_def)
  have h2: "case None of
             None \<Rightarrow> \<not> owned foreign_sandbox
           | Some perm \<Rightarrow> \<not> hasPermission ?ctx (authorization foreign_sandbox) perm"
    by (simp add: foreign_sandbox_def)
  have h2': "case Some ''write_code'' of
             None \<Rightarrow> \<not> owned foreign_sandbox
           | Some perm \<Rightarrow> \<not> hasPermission ?ctx (authorization foreign_sandbox) perm"
    by (simp add: foreign_sandbox_def example_context_def)
  have h3: "(isForkingSandbox foreign_world \<and> ?w1 = foreign_world) \<or>
           (\<not> isForkingSandbox foreign_world \<and>
            forkSandbox ?ctx (sb_id foreign_sandbox) foreign_world = (Fail (Thrown ''fork failed''), ?w1))"
    by (simp add: foreign_world_def example_world_modal example_context_def logging_fork_def
        called_def foreign_sandbox_def)
  from denied_fork_failure_cancels[OF h1 h2 h3, of continue_marks cancel_marks "()"]
    denied_fork_failure_cancels[OF h1 h2' h3, of continue_marks cancel_marks "()"]
  show ?thesis
    by (simp add: cancel_marks_def plain_def called_def)
qed

text \<open>
  C8, at an example: the prompt is the modal of \<^verbatim>\<open>createModals\<close>, opened and then closed by
  the user with \<^verbatim>\<open>unfreeze\<close>.
\<close>

theorem unfreeze_clears_override_and_continues_witness:
  "withOwnedSandbox (example_context (JStr ''unfreeze'') True) continue_marks
     (Some cancel_marks) None () frozen_world =
   (Done (),
    frozen_world
      \<lparr>sessionFrozen := False,
       modals := (modals frozen_world)\<lparr>current := None\<rparr>,
       promises := [Resolved (JStr ''unfreeze'')],
       resolver := [''forkFrozenModal'' \<mapsto> 0],
       trace := [Continue_action]\<rparr>)"
proof -
  let ?ctx = "example_context (JStr ''unfreeze'') True"
  let ?w1 = "frozen_world
      \<lparr>modals := (modals frozen_world)\<lparr>current := None\<rparr>,
       promises := [Resolved (JStr ''unfreeze'')],
       resolver := [''forkFrozenModal'' \<mapsto> 0]\<rparr>"
  have h1: "currentSandbox frozen_world = Some example_sandbox"
    by (simp add: frozen_world_def)
  have h2: "case None of
             None \<Rightarrow> owned example_sandbox
           | Some perm \<Rightarrow> hasPermission ?ctx (authorization example_sandbox) perm"
    by (simp add: example_sandbox_def)
  have h3: "isFrozen example_sandbox" by (simp add: example_sandbox_def)
  have h4: "sessionFrozen frozen_world" by (simp add: frozen_world_def)
  have h5: "forkFrozenModal_open ?ctx frozen_world = (Done (JStr ''unfreeze''), ?w1)"
    by (simp add: example_context_def frozen_world_prompt js_or_def)
  from unfreeze_clears_override_and_continues[OF h1 h2 h3 h4 h5, of continue_marks
      "Some cancel_marks" "()"]
  show ?thesis
    by (simp add: continue_marks_def plain_def called_def frozen_world_def example_world_modal)
qed

end
